theory Spec2Isabelle
  imports Main "HOL-Library.Char_ord" "HOL-Library.List_Lexorder" "HOL-Library.Sublist"
begin

section \<open>The car reservation form (app.py)\<close>

text \<open>
  The script \<^verbatim>\<open>app.py\<close> keeps its reservations in one SQLite table and its per-user
  state in the Streamlit session. The table is modelled as the list of its rows in
  insertion order, the session as a record, and every block of the script as a function
  on them. The columns \<^verbatim>\<open>date\<close>, \<^verbatim>\<open>start_time\<close> and \<^verbatim>\<open>end_time\<close> are TEXT: the
  queries compare them as strings (SQLite's BINARY collation, byte by byte, a proper
  prefix being smaller), which is the lexicographic order of \<open>HOL-Library.List_Lexorder\<close>
  over the character order of \<open>HOL-Library.Char_ord\<close>. Characters are the code points
  below 256.
\<close>

subsection \<open>Times of day, dates and their text forms\<close>

text \<open>
  A Python \<^verbatim>\<open>datetime.time\<close> with hour \<open>h\<close> and minute \<open>m\<close> (seconds are always zero in
  the script) is the number of minutes after midnight; the comparison of two
  \<^verbatim>\<open>time\<close> objects is then the order of \<open>nat\<close>.
\<close>

type_synonym time = nat

definition time_hm :: "nat \<Rightarrow> nat \<Rightarrow> time" where
  "time_hm h m = 60 * h + m"

text \<open>\<^verbatim>\<open>range(lo, hi, step)\<close> for a positive step.\<close>

definition py_range :: "nat \<Rightarrow> nat \<Rightarrow> nat \<Rightarrow> nat list" where
  "py_range lo hi step = map (\<lambda>k. lo + step * k) [0..<(hi - lo + step - 1) div step]"

definition digit_char :: "nat \<Rightarrow> char" where
  "digit_char n = char_of (48 + n)"

definition is_digit :: "char \<Rightarrow> bool" where
  "is_digit c \<longleftrightarrow> CHR ''0'' \<le> c \<and> c \<le> CHR ''9''"

definition digit_val :: "char \<Rightarrow> nat" where
  "digit_val c = of_char c - 48"

text \<open>\<^verbatim>\<open>%02d\<close> of a number below 100.\<close>

definition two_digits :: "nat \<Rightarrow> string" where
  "two_digits n = [digit_char (n div 10), digit_char (n mod 10)]"

text \<open>\<^verbatim>\<open>t.strftime("%H:%M")\<close> of a time of day \<open>t < 1440\<close>.\<close>

definition strftime_HM :: "time \<Rightarrow> string" where
  "strftime_HM t = two_digits (t div 60) @ '':'' @ two_digits (t mod 60)"

text \<open>
  \<^verbatim>\<open>datetime.strptime(s, "%H:%M")\<close>. The standard library matches the string against
  \<^verbatim>\<open>(?P<H>2[0-3]|[0-1]\d|\d):(?P<M>[0-5]\d|\d)\<close> from its start and raises
  \<^verbatim>\<open>ValueError\<close> when the string does not match or is longer than the match. The
  result lies on 1900-01-01; it is modelled as the minutes after that day's midnight,
  \<open>None\<close> standing for the \<^verbatim>\<open>ValueError\<close>.
\<close>

fun parse_M :: "string \<Rightarrow> nat option" where
  "parse_M [a, b] =
     (if is_digit a \<and> digit_val a \<le> 5 \<and> is_digit b
      then Some (10 * digit_val a + digit_val b) else None)"
| "parse_M [a] = (if is_digit a then Some (digit_val a) else None)"
| "parse_M _ = None"

fun strptime_HM :: "string \<Rightarrow> nat option" where
  "strptime_HM (a # b # c # rest) =
     (if is_digit a \<and> is_digit b \<and> 10 * digit_val a + digit_val b \<le> 23 \<and> c = CHR '':''
      then map_option (\<lambda>m. 60 * (10 * digit_val a + digit_val b) + m) (parse_M rest)
      else if is_digit a \<and> b = CHR '':''
      then map_option (\<lambda>m. 60 * digit_val a + m) (parse_M (c # rest))
      else None)"
| "strptime_HM _ = None"

text \<open>\<^verbatim>\<open>dt.time()\<close> of a datetime given in minutes after a midnight.\<close>

definition dt_time :: "nat \<Rightarrow> time" where
  "dt_time t = t mod 1440"

subsection \<open>The slot lattice\<close>

text \<open>
  \<^verbatim>\<open>all_slots = [time(h, m) for h in range(0, 24) for m in range(0, 60, 15)]\<close>
\<close>

definition all_slots :: "time list" where
  "all_slots = concat (map (\<lambda>h. map (\<lambda>m. time_hm h m) (py_range 0 60 15)) (py_range 0 24 1))"

text \<open>
  The blocked slots of one row: \<^verbatim>\<open>t = s; while t < e: append(t.time()); t += 15 min\<close>,
  on the datetimes \<open>s\<close> and \<open>e\<close> that \<^verbatim>\<open>strptime\<close> returned.
\<close>

function slots_loop :: "nat \<Rightarrow> nat \<Rightarrow> time list" where
  "slots_loop t e = (if t < e then dt_time t # slots_loop (t + 15) e else [])"
  by pat_completeness auto
termination
  by (relation "measure (\<lambda>(t, e). e - t)") auto

declare slots_loop.simps [simp del]

subsection \<open>Dates\<close>

text \<open>
  A \<^verbatim>\<open>datetime.date\<close>; \<^verbatim>\<open>str(d)\<close> is its ISO form \<^verbatim>\<open>YYYY-MM-DD\<close> (years run from
  1 to 9999, zero-padded to four digits).
\<close>

record date =
  year :: nat
  month :: nat
  day :: nat

definition four_digits :: "nat \<Rightarrow> string" where
  "four_digits n = two_digits (n div 100) @ two_digits (n mod 100)"

definition str_date :: "date \<Rightarrow> string" where
  "str_date d = four_digits (year d) @ ''-'' @ two_digits (month d) @ ''-'' @ two_digits (day d)"

text \<open>The ranges of the fields of a \<^verbatim>\<open>date\<close> object.\<close>

definition date_ok :: "date \<Rightarrow> bool" where
  "date_ok d \<longleftrightarrow> 1 \<le> year d \<and> year d \<le> 9999 \<and> 1 \<le> month d \<and> month d \<le> 12 \<and>
     1 \<le> day d \<and> day d \<le> 31"

text \<open>The order of two dates as \<^verbatim>\<open>date\<close> objects: by year, then month, then day.\<close>

definition date_less :: "date \<Rightarrow> date \<Rightarrow> bool" where
  "date_less a b \<longleftrightarrow>
     year a < year b \<or> year a = year b \<and> (month a < month b \<or> month a = month b \<and> day a < day b)"

subsection \<open>The reservations table and the session\<close>

text \<open>
  The column \<^verbatim>\<open>status\<close> holds one of two literals: \<open>Reserved\<close> is the table's default
  (the first literal of the script), \<open>Cancelled\<close> the one both UPDATE statements write.
\<close>

datatype status = Reserved | Cancelled

record reservation =
  r_id :: nat
  r_name :: string
  r_date :: string
  r_start_time :: string
  r_end_time :: string
  r_car :: string
  r_status :: status

type_synonym store = "reservation list"

record session_state =
  last_end_time :: "time option"
  last_end_date :: "date option"
  cancel_id :: "nat option"

text \<open>The session as the script initialises it: all three entries \<^verbatim>\<open>None\<close>.\<close>

definition initial_session :: session_state where
  "initial_session = \<lparr>last_end_time = None, last_end_date = None, cancel_id = None\<rparr>"

datatype error = ValueError | ValidationError | NoAvailableStart | NoValidDuration

text \<open>
  The sweep of past days, with \<^verbatim>\<open>today_str = str(date.today())\<close>:
  \<^verbatim>\<open>UPDATE reservations SET status=<cancelled> WHERE date < :today AND status=<reserved>\<close>
\<close>

definition expiry_sweep :: "date \<Rightarrow> store \<Rightarrow> store" where
  "expiry_sweep today rows =
     (let today_str = str_date today in
      map (\<lambda>r. if r_date r < today_str \<and> r_status r = Reserved
                then r\<lparr>r_status := Cancelled\<rparr> else r) rows)"

text \<open>\<^verbatim>\<open>UPDATE reservations SET status=<cancelled> WHERE id=:id\<close>\<close>

definition cancel_reservation :: "nat \<Rightarrow> store \<Rightarrow> store" where
  "cancel_reservation i rows =
     map (\<lambda>r. if r_id r = i then r\<lparr>r_status := Cancelled\<rparr> else r) rows"

text \<open>
  \<^verbatim>\<open>if st.session_state.last_end_date != reserve_date:\<close> forget the last end time.
\<close>

definition reset_last_end :: "session_state \<Rightarrow> date \<Rightarrow> session_state" where
  "reset_last_end ss reserve_date =
     (if last_end_date ss \<noteq> Some reserve_date
      then ss\<lparr>last_end_time := None, last_end_date := Some reserve_date\<rparr>
      else ss)"

text \<open>
  \<^verbatim>\<open>SELECT * FROM reservations WHERE date=:date AND car=:car AND status=<reserved>\<close>
\<close>

definition df_existing :: "store \<Rightarrow> string \<Rightarrow> string \<Rightarrow> reservation list" where
  "df_existing rows date_str car =
     filter (\<lambda>r. r_date r = date_str \<and> r_car r = car \<and> r_status r = Reserved) rows"

text \<open>
  The loop over the fetched rows that collects \<^verbatim>\<open>unavailable_slots\<close>; a row whose
  start or end does not parse raises \<^verbatim>\<open>ValueError\<close> out of the script.
\<close>

fun unavailable_slots :: "reservation list \<Rightarrow> error + time list" where
  "unavailable_slots [] = Inr []"
| "unavailable_slots (row # rows) =
     (case strptime_HM (r_start_time row) of
        None \<Rightarrow> Inl ValueError
      | Some s \<Rightarrow>
         (case strptime_HM (r_end_time row) of
            None \<Rightarrow> Inl ValueError
          | Some e \<Rightarrow>
             (case unavailable_slots rows of
                Inl err \<Rightarrow> Inl err
              | Inr rest \<Rightarrow> Inr (slots_loop s e @ rest))))"

text \<open>
  \<^verbatim>\<open>[t for t in all_slots if (last_end_time is None or t >= last_end_time)
      and t not in unavailable_slots]\<close>
\<close>

definition available_start_slots :: "time option \<Rightarrow> time list \<Rightarrow> time list" where
  "available_start_slots last_end unavailable =
     filter (\<lambda>t. (case last_end of None \<Rightarrow> True | Some l \<Rightarrow> l \<le> t) \<and> t \<notin> set unavailable)
       all_slots"

text \<open>\<^verbatim>\<open>durations = [15 * i for i in range(2, 24 * 4 + 1)]\<close>\<close>

definition durations :: "nat list" where
  "durations = map (\<lambda>i. 15 * i) (py_range 2 (24 * 4 + 1) 1)"

text \<open>
  \<^verbatim>\<open>end_dt = start_dt + timedelta(minutes=d)\<close>, read back by \<^verbatim>\<open>end_dt.strftime("%H:%M")\<close>
  and \<^verbatim>\<open>end_dt.time()\<close>: only the time of day of the end is ever used, the day it falls
  on is dropped.
\<close>

definition end_time_of :: "time \<Rightarrow> nat \<Rightarrow> time" where
  "end_time_of start_time d = dt_time (start_time + d)"

text \<open>
  The query of the duration check:
  \<^verbatim>\<open>SELECT * FROM reservations WHERE car = :car AND date = :date AND status=<reserved>
      AND NOT (end_time <= :start OR start_time >= :end)\<close>
\<close>

definition overlap :: "store \<Rightarrow> string \<Rightarrow> string \<Rightarrow> string \<Rightarrow> string \<Rightarrow> reservation list" where
  "overlap rows car date_str start_str end_str =
     filter (\<lambda>r. r_car r = car \<and> r_date r = date_str \<and> r_status r = Reserved \<and>
                 \<not> (r_end_time r \<le> start_str \<or> r_start_time r \<ge> end_str)) rows"

text \<open>The loop \<^verbatim>\<open>for d in durations: ... if overlap.empty: valid_durations.append(d)\<close>\<close>

definition valid_durations :: "store \<Rightarrow> string \<Rightarrow> date \<Rightarrow> time \<Rightarrow> nat list" where
  "valid_durations rows car reserve_date start_time =
     filter (\<lambda>d. overlap rows car (str_date reserve_date) (strftime_HM start_time)
                    (strftime_HM (end_time_of start_time d)) = [])
       durations"

text \<open>
  \<^verbatim>\<open>INSERT INTO reservations (name, date, start_time, end_time, car)\<close>: the id is the
  next of the AUTOINCREMENT key (no row is ever deleted), the status the default.
\<close>

definition next_id :: "store \<Rightarrow> nat" where
  "next_id rows = Suc (fold max (map r_id rows) 0)"

definition insert_reservation ::
  "store \<Rightarrow> string \<Rightarrow> string \<Rightarrow> string \<Rightarrow> string \<Rightarrow> string \<Rightarrow> store" where
  "insert_reservation rows name date_str start_str end_str car =
     rows @ [\<lparr>r_id = next_id rows, r_name = name, r_date = date_str,
              r_start_time = start_str, r_end_time = end_str, r_car = car,
              r_status = Reserved\<rparr>]"

text \<open>
  \<^verbatim>\<open>name.strip()\<close>: leading and trailing whitespace removed. Among the code points
  below 256 Python's whitespace is 9 to 13, 28 to 32, 133 and 160.
\<close>

definition is_space :: "char \<Rightarrow> bool" where
  "is_space c \<longleftrightarrow> (of_char c :: nat) \<in> {9, 10, 11, 12, 13, 28, 29, 30, 31, 32, 133, 160}"

definition strip :: "string \<Rightarrow> string" where
  "strip s = rev (dropWhile is_space (rev (dropWhile is_space s)))"

text \<open>
  The block \<^verbatim>\<open>if submitted:\<close>. A blank name shows the error and changes nothing;
  otherwise the row is inserted and the session remembers the end's time of day.
\<close>

definition submit ::
  "store \<Rightarrow> session_state \<Rightarrow> string \<Rightarrow> date \<Rightarrow> string \<Rightarrow> time \<Rightarrow> nat
     \<Rightarrow> (error + time) \<times> store \<times> session_state" where
  "submit rows ss name reserve_date car start_time duration_minutes =
     (if strip name = []
      then (Inl ValidationError, rows, ss)
      else
        (Inr (end_time_of start_time duration_minutes),
         insert_reservation rows name (str_date reserve_date) (strftime_HM start_time)
           (strftime_HM (end_time_of start_time duration_minutes)) car,
         ss\<lparr>last_end_time := Some (end_time_of start_time duration_minutes)\<rparr>))"

text \<open>
  The form down to the start-time select box (the reset of the last end time, the fetch
  of the day's rows, the blocked slots, the selectable starts): it gives the session as
  the form left it and the options of the select box, or the \<^verbatim>\<open>ValueError\<close> of a row
  that does not parse, or the \<^verbatim>\<open>st.stop()\<close> of an empty list of options.
\<close>

definition start_options ::
  "store \<Rightarrow> session_state \<Rightarrow> date \<Rightarrow> string \<Rightarrow> error + session_state \<times> time list" where
  "start_options rows ss reserve_date car =
     (let ss' = reset_last_end ss reserve_date in
      case unavailable_slots (df_existing rows (str_date reserve_date) car) of
        Inl err \<Rightarrow> Inl err
      | Inr unavailable \<Rightarrow>
         (if available_start_slots (last_end_time ss') unavailable = []
          then Inl NoAvailableStart
          else Inr (ss', available_start_slots (last_end_time ss') unavailable)))"

text \<open>
  The session after the form has been evaluated for each date of a list in turn (only the
  reset of the last end time touches the session).
\<close>

fun evaluations :: "session_state \<Rightarrow> date list \<Rightarrow> session_state" where
  "evaluations ss [] = ss"
| "evaluations ss (d # ds) = evaluations (reset_last_end ss d) ds"

text \<open>
  The whole booking: the form is evaluated, the user picks \<open>start_time\<close> among the start
  options and \<open>duration_minutes\<close> among the valid durations of that start, and submits.
  A choice that is not among the options offered is no run of the form: \<open>None\<close>.
\<close>

definition book ::
  "store \<Rightarrow> session_state \<Rightarrow> string \<Rightarrow> date \<Rightarrow> string \<Rightarrow> time \<Rightarrow> nat
     \<Rightarrow> ((error + time) \<times> store \<times> session_state) option" where
  "book rows ss name reserve_date car start_time duration_minutes =
     (case start_options rows ss reserve_date car of
        Inl err \<Rightarrow> Some (Inl err, rows, reset_last_end ss reserve_date)
      | Inr (ss', starts) \<Rightarrow>
         (if start_time \<notin> set starts then None
          else if valid_durations rows car reserve_date start_time = []
          then Some (Inl NoValidDuration, rows, ss')
          else if duration_minutes \<notin> set (valid_durations rows car reserve_date start_time)
          then None
          else Some (submit rows ss' name reserve_date car start_time duration_minutes)))"

subsection \<open>The scenario of the specification\<close>

text \<open>
  Two reservations, 09:00 to 10:00 and 12:00 to 13:00, for the car VOXY on 2024-06-01;
  a row whose end, 01:00, lies on the day after its start, 23:00; and a row dated the
  day before.
\<close>

definition scenario_date :: date where
  "scenario_date = \<lparr>year = 2024, month = 6, day = 1\<rparr>"

definition scenario_rows :: store where
  "scenario_rows =
     [\<lparr>r_id = 1, r_name = ''A'', r_date = ''2024-06-01'', r_start_time = ''09:00'',
       r_end_time = ''10:00'', r_car = ''VOXY'', r_status = Reserved\<rparr>,
      \<lparr>r_id = 2, r_name = ''B'', r_date = ''2024-06-01'', r_start_time = ''12:00'',
       r_end_time = ''13:00'', r_car = ''VOXY'', r_status = Reserved\<rparr>]"

definition late_row :: reservation where
  "late_row = \<lparr>r_id = 1, r_name = ''A'', r_date = ''2024-06-01'', r_start_time = ''23:00'',
       r_end_time = ''01:00'', r_car = ''VOXY'', r_status = Reserved\<rparr>"

definition yesterday_row :: reservation where
  "yesterday_row = \<lparr>r_id = 3, r_name = ''C'', r_date = ''2024-05-31'', r_start_time = ''09:00'',
       r_end_time = ''10:00'', r_car = ''VOXY'', r_status = Reserved\<rparr>"

section \<open>Properties\<close>

subsection \<open>The text forms of times\<close>

lemma of_char_digit_char: "n < 10 \<Longrightarrow> (of_char (digit_char n) :: nat) = 48 + n"
  by (simp add: digit_char_def)

lemma digit_char_less_iff: "a < 10 \<Longrightarrow> b < 10 \<Longrightarrow> digit_char a < digit_char b \<longleftrightarrow> a < b"
  by (simp add: less_char_def of_char_digit_char)

lemma digit_char_eq_iff: "a < 10 \<Longrightarrow> b < 10 \<Longrightarrow> digit_char a = digit_char b \<longleftrightarrow> a = b"
  by (metis of_char_digit_char add_left_cancel)

lemma is_digit_digit_char: "n < 10 \<Longrightarrow> is_digit (digit_char n)"
  by (simp add: is_digit_def less_eq_char_def of_char_digit_char)

lemma digit_val_digit_char: "n < 10 \<Longrightarrow> digit_val (digit_char n) = n"
  by (simp add: digit_val_def of_char_digit_char)

lemma digit_char_neq_colon: "n < 10 \<Longrightarrow> digit_char n \<noteq> CHR '':''"
proof
  assume "n < 10" and "digit_char n = CHR '':''"
  then have "(of_char (digit_char n) :: nat) = of_char (CHR '':'')" by simp
  with \<open>n < 10\<close> show False by (simp add: of_char_digit_char)
qed

lemma lex10: "r1 < 10 \<Longrightarrow> r2 < 10 \<Longrightarrow> (10 * q1 + r1 < 10 * q2 + r2) \<longleftrightarrow> q1 < q2 \<or> q1 = q2 \<and> r1 < (r2::nat)"
  by arith

lemma lex60: "r1 < 60 \<Longrightarrow> r2 < 60 \<Longrightarrow> (60 * q1 + r1 < 60 * q2 + r2) \<longleftrightarrow> q1 < q2 \<or> q1 = q2 \<and> r1 < (r2::nat)"
  by arith

lemma lex100: "r1 < 100 \<Longrightarrow> r2 < 100 \<Longrightarrow> (100 * q1 + r1 < 100 * q2 + r2) \<longleftrightarrow> q1 < q2 \<or> q1 = q2 \<and> r1 < (r2::nat)"
  by arith

lemma less_div_mod10: "(a::nat) < b \<longleftrightarrow> a div 10 < b div 10 \<or> a div 10 = b div 10 \<and> a mod 10 < b mod 10"
proof -
  have "10 * (a div 10) + a mod 10 < 10 * (b div 10) + b mod 10 \<longleftrightarrow>
        a div 10 < b div 10 \<or> a div 10 = b div 10 \<and> a mod 10 < b mod 10"
    by (rule lex10) simp_all
  then show ?thesis by (simp only: mult_div_mod_eq)
qed

lemma less_div_mod60: "(a::nat) < b \<longleftrightarrow> a div 60 < b div 60 \<or> a div 60 = b div 60 \<and> a mod 60 < b mod 60"
proof -
  have "60 * (a div 60) + a mod 60 < 60 * (b div 60) + b mod 60 \<longleftrightarrow>
        a div 60 < b div 60 \<or> a div 60 = b div 60 \<and> a mod 60 < b mod 60"
    by (rule lex60) simp_all
  then show ?thesis by (simp only: mult_div_mod_eq)
qed

lemma less_div_mod100: "(a::nat) < b \<longleftrightarrow> a div 100 < b div 100 \<or> a div 100 = b div 100 \<and> a mod 100 < b mod 100"
proof -
  have "100 * (a div 100) + a mod 100 < 100 * (b div 100) + b mod 100 \<longleftrightarrow>
        a div 100 < b div 100 \<or> a div 100 = b div 100 \<and> a mod 100 < b mod 100"
    by (rule lex100) simp_all
  then show ?thesis by (simp only: mult_div_mod_eq)
qed

lemma eq_div_mod10: "(a::nat) = b \<longleftrightarrow> a div 10 = b div 10 \<and> a mod 10 = b mod 10"
  by (metis div_mult_mod_eq)

lemma eq_div_mod60: "(a::nat) = b \<longleftrightarrow> a div 60 = b div 60 \<and> a mod 60 = b mod 60"
  by (metis div_mult_mod_eq)

lemma eq_div_mod100: "(a::nat) = b \<longleftrightarrow> a div 100 = b div 100 \<and> a mod 100 = b mod 100"
  by (metis div_mult_mod_eq)

lemma digits2_less_iff:
  assumes "p < 10" "q < 10" "r < 10" "s < 10"
  shows  "digit_char p # digit_char q # xs < digit_char r # digit_char s # ys \<longleftrightarrow>
     p < r \<or> p = r \<and> (q < s \<or> q = s \<and> xs < ys)"
  using assms by (simp add: digit_char_less_iff digit_char_eq_iff)

lemma digits2_eq_iff:
  assumes "p < 10" "q < 10" "r < 10" "s < 10"
  shows  "digit_char p # digit_char q # xs = digit_char r # digit_char s # ys \<longleftrightarrow>
     p = r \<and> q = s \<and> xs = ys"
  using assms by (simp add: digit_char_eq_iff)

lemma two_digits_less_iff:
  assumes "a < 100" "b < 100"
  shows "two_digits a @ xs < two_digits b @ ys \<longleftrightarrow> a < b \<or> a = b \<and> xs < ys"
proof -
  have d: "a div 10 < 10" "a mod 10 < 10" "b div 10 < 10"  "b mod 10 < 10"
    using assms by simp_all
  have "two_digits a @ xs < two_digits b @ ys \<longleftrightarrow>
     a div 10 < b div 10 \<or> a div 10 = b div 10 \<and> (a mod 10 < b mod 10 \<or> a mod 10 = b mod 10 \<and> xs < ys)"
    unfolding two_digits_def append_Cons append_Nil by (rule digits2_less_iff [OF d])
  then show ?thesis using eq_div_mod10 [of a b] less_div_mod10 [of a b] by blast
qed

lemma two_digits_eq_iff:
  assumes "a < 100" "b < 100"
  shows "two_digits a @ xs = two_digits b @ ys \<longleftrightarrow> a = b \<and> xs = ys"
proof -
  have d: "a div 10 < 10" "a mod 10 < 10" "b div 10 < 10"  "b mod 10 < 10"
    using assms by simp_all
  have "two_digits a @ xs = two_digits b @ ys \<longleftrightarrow>
     a div 10 = b div 10 \<and> a mod 10 = b mod 10 \<and> xs = ys"
    unfolding two_digits_def append_Cons append_Nil by (rule digits2_eq_iff [OF d])
  then show ?thesis using eq_div_mod10 [of a b] by blast
qed

lemma colon_less_iff: "CHR '':'' # xs < CHR '':'' # ys \<longleftrightarrow> xs < ys"
  by simp

lemma strftime_HM_less_iff:
  assumes "s < 1440" "t < 1440"
  shows "strftime_HM s < strftime_HM t \<longleftrightarrow> s < t"
proof -
  have h: "s div 60 < 100" "t div 60 < 100" and m: "s mod 60 < 100" "t mod 60 < 100"
    using assms by simp_all
  have "strftime_HM s < strftime_HM t \<longleftrightarrow>
        s div 60 < t div 60 \<or> s div 60 = t div 60 \<and>
          CHR '':'' # (two_digits (s mod 60) @ []) < CHR '':'' # (two_digits (t mod 60) @ [])"
    unfolding strftime_HM_def using two_digits_less_iff [OF h] by simp
  also have "\<dots> \<longleftrightarrow> s div 60 < t div 60 \<or> s div 60 = t div 60 \<and> s mod 60 < t mod 60"
    unfolding colon_less_iff two_digits_less_iff [OF m] by simp
  finally show ?thesis using less_div_mod60 [of s t] by blast
qed

lemma strftime_HM_eq_iff:
  assumes "s < 1440" "t < 1440"
  shows "strftime_HM s = strftime_HM t \<longleftrightarrow> s = t"
proof -
  have h: "s div 60 < 100" "t div 60 < 100" and m: "s mod 60 < 100" "t mod 60 < 100"
    using assms by simp_all
  have "strftime_HM s = strftime_HM t \<longleftrightarrow>
        s div 60 = t div 60 \<and> two_digits (s mod 60) @ [] = two_digits (t mod 60) @ []"
    unfolding strftime_HM_def using two_digits_eq_iff [OF h] by simp
  also have "\<dots> \<longleftrightarrow> s div 60 = t div 60 \<and> s mod 60 = t mod 60"
    unfolding two_digits_eq_iff [OF m] by simp
  finally show ?thesis using eq_div_mod60 [of s t] by blast
qed

lemma strftime_HM_le_iff:
  assumes "s < 1440" "t < 1440"
  shows "strftime_HM s \<le> strftime_HM t \<longleftrightarrow> s \<le> t"
  using strftime_HM_less_iff [OF assms] strftime_HM_eq_iff [OF assms]
  by (auto simp: le_less)

lemma strptime_strftime:
  assumes "t < 1440"
  shows "strptime_HM (strftime_HM t) = Some t"
proof -
  define h m where "h = t div 60" and "m = t mod 60"
  have hm: "h \<le> 23" "m < 60" "t = 60 * h + m" using assms by (simp_all add: h_def m_def)
  define a b c d where "a = h div 10" and "b = h mod 10" and "c = m div 10" and "d = m mod 10"
  have dg: "a < 10" "b < 10" "c < 10" "d < 10" "c \<le> 5" "10 * a + b = h" "10 * c + d = m"
    using hm by (simp_all add: a_def b_def c_def d_def)
  have "strftime_HM t = [digit_char a, digit_char b, CHR '':'', digit_char c, digit_char d]"
    by (simp add: strftime_HM_def two_digits_def a_def b_def c_def d_def h_def m_def)
  then show ?thesis
    using dg hm by (simp add: is_digit_digit_char digit_val_digit_char)
qed

lemma digit_val_bound: "is_digit c \<Longrightarrow> digit_val c \<le> 9"
  by (auto simp: is_digit_def digit_val_def less_eq_char_def)

lemma parse_M_bound: "parse_M s = Some m \<Longrightarrow> m < 60"
proof (induction s rule: parse_M.induct)
  case (1 a b)
  then show ?case using digit_val_bound [of b] by (auto split: if_splits)
next
  case (2 a)
  then show ?case using digit_val_bound [of a] by (auto split: if_splits)
qed simp_all

lemma strptime_HM_bound: "strptime_HM s = Some t \<Longrightarrow> t < 1440"
proof (induction s rule: strptime_HM.induct)
  case (1 a b c rest)
  then show ?case
    using digit_val_bound [of a] by (auto split: if_splits dest!: parse_M_bound)
qed simp_all

subsection \<open>The slot lattice\<close>

lemma py_range_0_24: "py_range 0 24 1 = [0..<24]"
  by (simp add: py_range_def)
lemma py_range_0_60: "py_range 0 60 15 = [0, 15, 30, 45]"
  by (simp add: py_range_def upt_rec)
lemma all_slots_eq: "all_slots = map (\<lambda>i. 15 * i) [0..<96]"
  unfolding all_slots_def py_range_0_24 py_range_0_60 time_hm_def
  by (simp add: upt_rec)
lemma mem_all_slots: "t \<in> set all_slots \<longleftrightarrow> t < 1440 \<and> t mod 15 = 0"
proof
  assume "t \<in> set all_slots"
  then obtain i where i: "i < 96" "t = 15 * i" unfolding all_slots_eq by auto
  then show "t < 1440 \<and> t mod 15 = 0" by simp
next
  assume h: "t < 1440 \<and> t mod 15 = 0"
  have "15 * (t div 15) + t mod 15 = t" by (rule mult_div_mod_eq)
  with h have e: "t = 15 * (t div 15)" by simp
  from h have "t < 15 * 96" by simp
  then have "t div 15 < 96" by (simp only: div_less_iff_less_mult zero_less_numeral mult.commute)
  then have "15 * (t div 15) \<in> set all_slots" unfolding all_slots_eq by simp
  then show "t \<in> set all_slots" by (subst e)
qed

text \<open>
  C8. \<^verbatim>\<open>all_slots\<close> takes no input and is the list of the 96 quarter-hour marks of a day:
  96 entries, strictly increasing, the first 00:00, the last 23:45, each entry 15 minutes
  after the one before it.
\<close>

theorem all_slots_lattice:
  "length all_slots = 96 \<and> sorted_wrt (<) all_slots \<and>
   hd all_slots = time_hm 0 0 \<and> last all_slots = time_hm 23 45 \<and>
   (\<forall>i. Suc i < length all_slots \<longrightarrow> all_slots ! Suc i = all_slots ! i + 15)"
proof -
  have "length all_slots = 96" by (simp add: all_slots_eq)
  moreover have "sorted_wrt (<) all_slots" by (simp add: all_slots_eq sorted_wrt_map)
  moreover have "hd all_slots = time_hm 0 0"
    unfolding all_slots_eq by (simp add: hd_map time_hm_def)
  moreover have "last all_slots = time_hm 23 45"
    unfolding all_slots_eq by (simp add: last_map time_hm_def)
  moreover have "Suc i < length all_slots \<Longrightarrow> all_slots ! Suc i = all_slots ! i + 15" for i
    by (simp add: all_slots_eq)
  ultimately show ?thesis by blast
qed

theorem all_slots_lattice_witness:
  "length all_slots = 96 \<and> all_slots ! 37 = time_hm 9 15 \<and> all_slots ! 37 = all_slots ! 36 + 15"
proof -
  have "Suc 36 < length all_slots" using all_slots_lattice by simp
  then have "all_slots ! Suc 36 = all_slots ! 36 + 15" using all_slots_lattice by blast
  moreover have "all_slots ! 37 = time_hm 9 15"
    unfolding all_slots_eq by (simp add: time_hm_def)
  ultimately show ?thesis using all_slots_lattice by simp
qed

subsection \<open>Blocked slots\<close>

lemma slots_loop_empty_iff: "slots_loop s e = [] \<longleftrightarrow> e \<le> s"
  by (subst slots_loop.simps) auto

lemma set_slots_loop: "set (slots_loop s e) = (\<lambda>k. dt_time (s + 15 * k)) ` {k. s + 15 * k < e}"
proof (induction s e rule: slots_loop.induct)
  case (1 t e)
  show ?case
  proof (cases "t < e")
    case True
    have "{k. t + 15 * k < e} = insert 0 (Suc ` {k. t + 15 + 15 * k < e})"
    proof (rule set_eqI)
      fix k show "k \<in> {k. t + 15 * k < e} \<longleftrightarrow> k \<in> insert 0 (Suc ` {k. t + 15 + 15 * k < e})"
        using True by (cases k) (auto simp: image_iff)
    qed
    then have "(\<lambda>k. dt_time (t + 15 * k)) ` {k. t + 15 * k < e} =
       insert (dt_time t) ((\<lambda>k. dt_time (t + 15 + 15 * k)) ` {k. t + 15 + 15 * k < e})"
      by (simp add: image_image add.assoc)
    with True "1.IH" show ?thesis by (subst slots_loop.simps) simp
  next
    case False
    then show ?thesis by (subst slots_loop.simps) auto
  qed
qed

lemma mem_slots_loop:
  assumes "e \<le> 1440"
  shows "m \<in> set (slots_loop s e) \<longleftrightarrow> (\<exists>k. m = s + 15 * k \<and> m < e)"
proof -
  have "dt_time (s + 15 * k) = s + 15 * k" if "s + 15 * k < e" for k
    using that assms by (simp add: dt_time_def)
  then show ?thesis unfolding set_slots_loop by (auto simp: image_iff) 
qed

lemma mem_slots_loop_aligned:
  assumes "e \<le> 1440" "s mod 15 = 0"
  shows "m \<in> set (slots_loop s e) \<longleftrightarrow> s \<le> m \<and> m < e \<and> m mod 15 = 0"
proof -
  have "(\<exists>k. m = s + 15 * k) \<longleftrightarrow> s \<le> m \<and> m mod 15 = 0"
  proof
    assume "\<exists>k. m = s + 15 * k"
    then show "s \<le> m \<and> m mod 15 = 0" using assms(2) by auto
  next
    assume h: "s \<le> m \<and> m mod 15 = 0"
    then have "15 dvd m - s" using assms(2) by (simp add: mod_eq_0_iff_dvd dvd_diff_nat)
    then have "m - s = 15 * ((m - s) div 15)" by simp
    with h have "m = s + 15 * ((m - s) div 15)" by linarith
    then show "\<exists>k. m = s + 15 * k" ..
  qed
  moreover have "(\<exists>k. m = s + 15 * k \<and> m < e) \<longleftrightarrow> (\<exists>k. m = s + 15 * k) \<and> m < e" by blast
  ultimately show ?thesis unfolding mem_slots_loop [OF assms(1)] by auto
qed

lemma unavailable_slots_append:
  "unavailable_slots (xs @ ys) =
     (case unavailable_slots xs of
        Inl err \<Rightarrow> Inl err
      | Inr a \<Rightarrow> (case unavailable_slots ys of Inl err \<Rightarrow> Inl err | Inr b \<Rightarrow> Inr (a @ b)))"
  by (induction xs) (auto split: option.splits sum.splits)

lemma unavailable_slots_error: "unavailable_slots rows = Inl err \<Longrightarrow> err = ValueError"
  by (induction rows arbitrary: err) (auto split: option.splits sum.splits)

lemma unavailable_slots_returns:
  "(\<exists>slots. unavailable_slots rows = Inr slots) \<longleftrightarrow>
   (\<forall>r\<in>set rows. strptime_HM (r_start_time r) \<noteq> None \<and> strptime_HM (r_end_time r) \<noteq> None)"
  by (induction rows) (auto split: option.splits sum.splits)

lemma set_unavailable_slots:
  "unavailable_slots rows = Inr slots \<Longrightarrow>
   set slots = (\<Union>r\<in>set rows. set (slots_loop (the (strptime_HM (r_start_time r)))
                                             (the (strptime_HM (r_end_time r)))))"
  by (induction rows arbitrary: slots) (auto split: option.splits sum.splits)

lemma mem_unavailable_slots:
  assumes "unavailable_slots rows = Inr slots"
  shows "m \<in> set slots \<longleftrightarrow>
     (\<exists>r\<in>set rows. \<exists>s e k. strptime_HM (r_start_time r) = Some s \<and>
         strptime_HM (r_end_time r) = Some e \<and> m = s + 15 * k \<and> m < e)"
proof -
  have p: "\<forall>r\<in>set rows. strptime_HM (r_start_time r) \<noteq> None \<and> strptime_HM (r_end_time r) \<noteq> None"
    using assms unavailable_slots_returns by blast
  show ?thesis
  proof
    assume "m \<in> set slots"
    then obtain r where r: "r \<in> set rows"
      and m: "m \<in> set (slots_loop (the (strptime_HM (r_start_time r))) (the (strptime_HM (r_end_time r))))"
      unfolding set_unavailable_slots [OF assms] by blast
    from p r obtain s e where se: "strptime_HM (r_start_time r) = Some s" "strptime_HM (r_end_time r) = Some e"
      by auto
    have "e \<le> 1440" using strptime_HM_bound [OF se(2)] by simp
    with m se have "\<exists>k. m = s + 15 * k \<and> m < e" by (simp add: mem_slots_loop)
    with r se show "\<exists>r\<in>set rows. \<exists>s e k. strptime_HM (r_start_time r) = Some s \<and>
         strptime_HM (r_end_time r) = Some e \<and> m = s + 15 * k \<and> m < e" by blast
  next
    assume "\<exists>r\<in>set rows. \<exists>s e k. strptime_HM (r_start_time r) = Some s \<and>
         strptime_HM (r_end_time r) = Some e \<and> m = s + 15 * k \<and> m < e"
    then obtain r s e k where r: "r \<in> set rows" and se: "strptime_HM (r_start_time r) = Some s"
       "strptime_HM (r_end_time r) = Some e" and m: "m = s + 15 * k" "m < e" by blast
    have "e \<le> 1440" using strptime_HM_bound [OF se(2)] by simp
    then have "m \<in> set (slots_loop s e)" using m by (auto simp: mem_slots_loop)
    with r se show "m \<in> set slots" unfolding set_unavailable_slots [OF assms] by force
  qed
qed

lemma set_df_existing:
  "set (df_existing rows date_str car) =
     {r \<in> set rows. r_date r = date_str \<and> r_car r = car \<and> r_status r = Reserved}"
  by (auto simp: df_existing_def)

lemma df_existing_append:
  "df_existing (xs @ ys) date_str car = df_existing xs date_str car @ df_existing ys date_str car"
  by (simp add: df_existing_def)

lemma df_existing_Cons:
  "df_existing (r # ys) date_str car =
     (if r_date r = date_str \<and> r_car r = car \<and> r_status r = Reserved
      then r # df_existing ys date_str car else df_existing ys date_str car)"
  by (simp add: df_existing_def)

lemma unavailable_slots_skip:
  assumes "strptime_HM (r_start_time r) = Some s" "strptime_HM (r_end_time r) = Some e" "e \<le> s"
  shows "unavailable_slots (as @ r # bs) = unavailable_slots (as @ bs)"
proof -
  have "slots_loop s e = []" using assms(3) by (simp add: slots_loop_empty_iff)
  then have h: "unavailable_slots (r # bs) = unavailable_slots bs"
    using assms(1,2) by (simp split: sum.splits)
  show ?thesis unfolding unavailable_slots_append [of as] h by (rule refl)
qed

lemma df_existing_scenario: "df_existing scenario_rows ''2024-06-01'' ''VOXY'' = scenario_rows"
  by (simp add: df_existing_def scenario_rows_def)

lemma strptime_scenario:
  "strptime_HM ''09:00'' = Some 540" "strptime_HM ''10:00'' = Some 600"
  "strptime_HM ''12:00'' = Some 720" "strptime_HM ''13:00'' = Some 780"
  "strptime_HM ''23:00'' = Some 1380" "strptime_HM ''01:00'' = Some 60"
  by (simp_all add: is_digit_def digit_val_def)

text \<open>
  C4. When the start and the end of every fetched row parse, the loop returns, and a time
  \<open>m\<close> is among the blocked slots if and only if some row of the table with status
  \<open>Reserved\<close>, the car and the date asked for has \<open>m\<close> among the marks
  \<open>s, s + 15, s + 30, ...\<close> below its end \<open>e\<close>, where \<open>s\<close> and \<open>e\<close> are its parsed start
  and end. Rows that are cancelled or of another car or date do not occur on the right,
  and a row with \<open>e \<le> s\<close> has no such mark.
\<close>

theorem blocked_slots_iff:
  assumes "\<forall>r\<in>set (df_existing rows date_str car).
             strptime_HM (r_start_time r) \<noteq> None \<and> strptime_HM (r_end_time r) \<noteq> None"
  shows "\<exists>blocked. unavailable_slots (df_existing rows date_str car) = Inr blocked \<and>
     (\<forall>m. m \<in> set blocked \<longleftrightarrow>
        (\<exists>r\<in>set rows. r_status r = Reserved \<and> r_car r = car \<and> r_date r = date_str \<and>
           (\<exists>s e k. strptime_HM (r_start_time r) = Some s \<and> strptime_HM (r_end_time r) = Some e \<and>
                    m = s + 15 * k \<and> m < e)))"
proof -
  from assms obtain blocked where b: "unavailable_slots (df_existing rows date_str car) = Inr blocked"
    using unavailable_slots_returns by blast
  have "m \<in> set blocked \<longleftrightarrow>
        (\<exists>r\<in>set rows. r_status r = Reserved \<and> r_car r = car \<and> r_date r = date_str \<and>
           (\<exists>s e k. strptime_HM (r_start_time r) = Some s \<and> strptime_HM (r_end_time r) = Some e \<and>
                    m = s + 15 * k \<and> m < e))" for m
    unfolding mem_unavailable_slots [OF b] set_df_existing by blast
  with b show ?thesis by blast
qed

theorem blocked_slots_iff_witness:
  "\<exists>blocked. unavailable_slots (df_existing scenario_rows ''2024-06-01'' ''VOXY'') = Inr blocked \<and>
     time_hm 9 15 \<in> set blocked \<and> time_hm 12 45 \<in> set blocked"
proof -
  have h: "\<forall>r\<in>set (df_existing scenario_rows ''2024-06-01'' ''VOXY'').
             strptime_HM (r_start_time r) \<noteq> None \<and> strptime_HM (r_end_time r) \<noteq> None"
    unfolding df_existing_scenario unfolding scenario_rows_def
    by (simp del: strptime_HM.simps add: strptime_scenario)
  from blocked_slots_iff [OF h] obtain blocked where
    b: "unavailable_slots (df_existing scenario_rows ''2024-06-01'' ''VOXY'') = Inr blocked"
    and m: "\<And>m. m \<in> set blocked \<longleftrightarrow>
        (\<exists>r\<in>set scenario_rows. r_status r = Reserved \<and> r_car r = ''VOXY'' \<and> r_date r = ''2024-06-01'' \<and>
           (\<exists>s e k. strptime_HM (r_start_time r) = Some s \<and> strptime_HM (r_end_time r) = Some e \<and>
                    m = s + 15 * k \<and> m < e))" by blast
  have "time_hm 9 15 \<in> set blocked"
    unfolding m scenario_rows_def
    by (auto simp del: strptime_HM.simps simp add: strptime_scenario time_hm_def intro!: exI [of _ 1])
  moreover have "time_hm 12 45 \<in> set blocked"
    unfolding m scenario_rows_def
    by (auto simp del: strptime_HM.simps simp add: strptime_scenario time_hm_def intro!: exI [of _ 3])
  ultimately show ?thesis using b by blast
qed

text \<open>
  C3. A row whose parsed end is not after its parsed start (a booking that runs into the
  next day is stored so) adds no slot: its loop yields the empty list, the blocked slots
  of the day are those of the table without the row, and every slot of the lattice that
  no other row blocks and that is not before the session's last end time is a selectable
  start.
\<close>

theorem midnight_crossing_blocks_nothing:
  assumes "strptime_HM (r_start_time r) = Some s" "strptime_HM (r_end_time r) = Some e" "e \<le> s"
  shows "slots_loop s e = [] \<and>
     unavailable_slots (df_existing (xs @ r # ys) date_str car) =
       unavailable_slots (df_existing (xs @ ys) date_str car) \<and>
     (\<forall>others m. unavailable_slots (df_existing (xs @ ys) date_str car) = Inr others \<and>
         m \<in> set all_slots \<and> m \<notin> set others \<and>
         (case min_start of None \<Rightarrow> True | Some l \<Rightarrow> l \<le> m)
        \<longrightarrow> unavailable_slots (df_existing (xs @ r # ys) date_str car) = Inr others \<and>
            m \<in> set (available_start_slots min_start others))"
proof -
  have 1: "slots_loop s e = []" using assms(3) by (simp add: slots_loop_empty_iff)
  have 2: "unavailable_slots (df_existing (xs @ r # ys) date_str car) =
       unavailable_slots (df_existing (xs @ ys) date_str car)"
    using unavailable_slots_skip [OF assms]
    by (simp add: df_existing_append df_existing_Cons)
  have 3: "m \<in> set (available_start_slots min_start others)"
    if "m \<in> set all_slots" "m \<notin> set others" "case min_start of None \<Rightarrow> True | Some l \<Rightarrow> l \<le> m"
    for m others
    using that by (simp add: available_start_slots_def)
  show ?thesis using 1 2 3 by simp
qed

theorem midnight_crossing_blocks_nothing_witness:
  "unavailable_slots (df_existing ([] @ late_row # []) ''2024-06-01'' ''VOXY'') = Inr [] \<and>
   time_hm 23 0 \<in> set (available_start_slots None []) \<and>
   time_hm 23 45 \<in> set (available_start_slots None [])"
proof -
  have s: "strptime_HM (r_start_time late_row) = Some 1380"
    unfolding late_row_def by (simp del: strptime_HM.simps add: strptime_scenario)
  have e: "strptime_HM (r_end_time late_row) = Some 60"
    unfolding late_row_def by (simp del: strptime_HM.simps add: strptime_scenario)
  have le: "(60::nat) \<le> 1380" by simp
  have o: "unavailable_slots (df_existing ([] @ []) ''2024-06-01'' ''VOXY'') = Inr []"
    by (simp add: df_existing_def)
  have a: "time_hm 23 0 \<in> set all_slots" "time_hm 23 45 \<in> set all_slots"
    by (simp_all add: mem_all_slots time_hm_def)
  note t = midnight_crossing_blocks_nothing [OF s e le, of "[]" "[]" "''2024-06-01''" "''VOXY''" None]
  from t o a show ?thesis by simp
qed

subsection \<open>Selectable starts\<close>

text \<open>
  C5. The selectable starts are exactly the slots of \<^verbatim>\<open>all_slots\<close> that are not blocked
  and, when a last end time is set, not before it; they come in the order of
  \<^verbatim>\<open>all_slots\<close>, each once.
\<close>

theorem available_start_slots_exact:
  "set (available_start_slots min_start blocked) =
     {t \<in> set all_slots. t \<notin> set blocked \<and> (\<forall>l. min_start = Some l \<longrightarrow> l \<le> t)} \<and>
   subseq (available_start_slots min_start blocked) all_slots \<and>
   sorted_wrt (<) (available_start_slots min_start blocked)"
proof -
  have "sorted_wrt (<) all_slots" by (simp add: all_slots_eq sorted_wrt_map)
  then have "sorted_wrt (<) (available_start_slots min_start blocked)"
    unfolding available_start_slots_def by (rule sorted_wrt_filter)
  moreover have "subseq (available_start_slots min_start blocked) all_slots"
    unfolding available_start_slots_def by (rule subseq_filter_left)
  moreover have "set (available_start_slots min_start blocked) =
     {t \<in> set all_slots. t \<notin> set blocked \<and> (\<forall>l. min_start = Some l \<longrightarrow> l \<le> t)}"
    by (auto simp: available_start_slots_def split: option.splits)
  ultimately show ?thesis by blast
qed

theorem available_start_slots_exact_witness:
  "time_hm 10 0 \<in> set (available_start_slots (Some (time_hm 10 0)) [540, 555, 570, 585]) \<and>
   time_hm 9 45 \<notin> set (available_start_slots None [540, 555, 570, 585]) \<and>
   time_hm 8 45 \<notin> set (available_start_slots (Some (time_hm 10 0)) [540, 555, 570, 585])"
proof -
  have "time_hm 10 0 \<in> set all_slots" by (simp add: mem_all_slots time_hm_def)
  then show ?thesis
    using available_start_slots_exact [of "Some (time_hm 10 0)" "[540, 555, 570, 585]"]
      available_start_slots_exact [of None "[540, 555, 570, 585]"]
    by (simp add: time_hm_def)
qed

subsection \<open>Valid durations\<close>

lemma durations_eq: "durations = map (\<lambda>k. 15 * (2 + k)) [0..<95]"
  by (simp add: durations_def py_range_def)

lemma mem_durations: "d \<in> set durations \<longleftrightarrow> 30 \<le> d \<and> d \<le> 1440 \<and> d mod 15 = 0"
proof
  assume "d \<in> set durations"
  then obtain k where k: "k < 95" "d = 15 * (2 + k)" unfolding durations_eq by auto
  then show "30 \<le> d \<and> d \<le> 1440 \<and> d mod 15 = 0" by simp
next
  assume h: "30 \<le> d \<and> d \<le> 1440 \<and> d mod 15 = 0"
  have "15 * (d div 15) + d mod 15 = d" by (rule mult_div_mod_eq)
  with h have e: "d = 15 * (d div 15)" by simp
  define k where "k = d div 15 - 2"
  from h have "d < 15 * 97" "15 * 2 \<le> d" by simp_all
  then have "d div 15 < 97" "2 \<le> d div 15"
    by (simp_all only: div_less_iff_less_mult less_eq_div_iff_mult_less_eq zero_less_numeral mult.commute)
  then have k: "k < 95" "d div 15 = 2 + k" by (simp_all add: k_def)
  from k(1) have "15 * (2 + k) \<in> set durations" unfolding durations_eq by simp
  then show "d \<in> set durations" using e k(2) by simp
qed

lemma mem_valid_durations:
  "d \<in> set (valid_durations rows car reserve_date start_time) \<longleftrightarrow>
     d \<in> set durations \<and>
     overlap rows car (str_date reserve_date) (strftime_HM start_time)
       (strftime_HM (end_time_of start_time d)) = []"
  by (simp add: valid_durations_def)

lemma overlap_empty_iff:
  "overlap rows car date_str start_str end_str = [] \<longleftrightarrow>
     (\<forall>r\<in>set rows. r_car r = car \<and> r_date r = date_str \<and> r_status r = Reserved \<longrightarrow>
        r_end_time r \<le> start_str \<or> end_str \<le> r_start_time r)"
  by (auto simp: overlap_def filter_empty_conv)

lemma str_date_scenario: "str_date scenario_date = ''2024-06-01''"
  by code_simp

lemma end_time_of_same_day: "start_time + d < 1440 \<Longrightarrow> end_time_of start_time d = start_time + d"
  by (simp add: end_time_of_def dt_time_def)

lemma end_time_of_bound: "end_time_of start_time d < 1440"
  by (simp add: end_time_of_def dt_time_def)

text \<open>
  On rows whose start and end were written by \<^verbatim>\<open>strftime("%H:%M")\<close> the text comparisons
  of the query are comparisons of times of day: a candidate is accepted if and only if
  every reserved row of the car and date ends by the start or starts at or after the
  time of day of the candidate's end.
\<close>

lemma valid_durations_time_of_day:
  assumes "start_time < 1440"
      and "\<forall>r\<in>set rows. \<exists>s e. s < 1440 \<and> e < 1440 \<and>
             r_start_time r = strftime_HM s \<and> r_end_time r = strftime_HM e"
  shows "d \<in> set (valid_durations rows car D start_time) \<longleftrightarrow>
      d \<in> set durations \<and>
      (\<forall>r\<in>set rows. r_car r = car \<and> r_date r = str_date D \<and> r_status r = Reserved \<longrightarrow>
         (\<forall>s e. strptime_HM (r_start_time r) = Some s \<and> strptime_HM (r_end_time r) = Some e \<longrightarrow>
            e \<le> start_time \<or> end_time_of start_time d \<le> s))"
proof -
  have "(r_end_time r \<le> strftime_HM start_time \<or>
         strftime_HM (end_time_of start_time d) \<le> r_start_time r) \<longleftrightarrow>
        (\<forall>s e. strptime_HM (r_start_time r) = Some s \<and> strptime_HM (r_end_time r) = Some e \<longrightarrow>
            e \<le> start_time \<or> end_time_of start_time d \<le> s)"
    if "r \<in> set rows" for r
  proof -
    from assms(2) that obtain s e where se: "s < 1440" "e < 1440"
      "r_start_time r = strftime_HM s" "r_end_time r = strftime_HM e" by blast
    have p: "strptime_HM (r_start_time r) = Some s" "strptime_HM (r_end_time r) = Some e"
      using se by (simp_all add: strptime_strftime del: strptime_HM.simps)
    have "r_end_time r \<le> strftime_HM start_time \<longleftrightarrow> e \<le> start_time"
      unfolding se(4) using se(2) assms(1) by (rule strftime_HM_le_iff)
    moreover have "strftime_HM (end_time_of start_time d) \<le> r_start_time r \<longleftrightarrow>
        end_time_of start_time d \<le> s"
      unfolding se(3) using end_time_of_bound se(1) by (rule strftime_HM_le_iff)
    ultimately show ?thesis using p by simp
  qed
  then show ?thesis unfolding mem_valid_durations overlap_empty_iff by blast
qed

text \<open>
  So a candidate whose end lies before midnight is accepted if and only if, for every
  reserved row of the car and date, it starts at or after the row's stored end or ends
  by the row's stored start.
\<close>

lemma valid_durations_same_day:
  assumes "start_time + d < 1440"
      and "\<forall>r\<in>set rows. \<exists>s e. s < 1440 \<and> e < 1440 \<and>
             r_start_time r = strftime_HM s \<and> r_end_time r = strftime_HM e"
  shows "d \<in> set (valid_durations rows car D start_time) \<longleftrightarrow>
      d \<in> set durations \<and>
      (\<forall>r\<in>set rows. r_car r = car \<and> r_date r = str_date D \<and> r_status r = Reserved \<longrightarrow>
         (\<forall>s e. strptime_HM (r_start_time r) = Some s \<and> strptime_HM (r_end_time r) = Some e \<longrightarrow>
            e \<le> start_time \<or> start_time + d \<le> s))"
proof -
  from assms(1) have "start_time < 1440" by simp
  from valid_durations_time_of_day [OF this assms(2), of d car D] show ?thesis
    by (simp only: end_time_of_same_day [OF assms(1)])
qed

lemma end_times_scenario:
  "strftime_HM (time_hm 10 0) = ''10:00''"
  "strftime_HM (end_time_of (time_hm 10 0) 30) = ''10:30''"
  "strftime_HM (end_time_of (time_hm 10 0) 45) = ''10:45''"
  "strftime_HM (end_time_of (time_hm 10 0) 60) = ''11:00''"
  "strftime_HM (end_time_of (time_hm 10 0) 75) = ''11:15''"
  "strftime_HM (end_time_of (time_hm 10 0) 90) = ''11:30''"
  "strftime_HM (end_time_of (time_hm 10 0) 105) = ''11:45''"
  "strftime_HM (end_time_of (time_hm 10 0) 120) = ''12:00''"
  "strftime_HM (end_time_of (time_hm 10 0) 135) = ''12:15''"
  "strftime_HM (end_time_of (time_hm 10 0) 840) = ''00:00''"
  by code_simp+

text \<open>
  C6. With exactly the two reservations 09:00 to 10:00 and 12:00 to 13:00 for VOXY on
  2024-06-01 (whatever their ids and names), the durations offered for the start 10:00
  include every candidate from 30 to 120 minutes (the end 12:00 touches the second
  reservation) and do not include 135 minutes.
\<close>

theorem scenario_durations:
  fixes i1 i2 :: nat and n1 n2 :: string
  defines "rows \<equiv>
     [\<lparr>r_id = i1, r_name = n1, r_date = ''2024-06-01'', r_start_time = ''09:00'',
       r_end_time = ''10:00'', r_car = ''VOXY'', r_status = Reserved\<rparr>,
      \<lparr>r_id = i2, r_name = n2, r_date = ''2024-06-01'', r_start_time = ''12:00'',
       r_end_time = ''13:00'', r_car = ''VOXY'', r_status = Reserved\<rparr>]"
  shows "(\<forall>d\<in>{30, 45, 60, 75, 90, 105, 120}.
            d \<in> set (valid_durations rows ''VOXY'' scenario_date (time_hm 10 0))) \<and>
         135 \<notin> set (valid_durations rows ''VOXY'' scenario_date (time_hm 10 0))"
  unfolding rows_def
  by (simp add: mem_valid_durations mem_durations overlap_empty_iff str_date_scenario
      end_times_scenario)

theorem scenario_durations_witness:
  "120 \<in> set (valid_durations scenario_rows ''VOXY'' scenario_date (time_hm 10 0)) \<and>
   135 \<notin> set (valid_durations scenario_rows ''VOXY'' scenario_date (time_hm 10 0))"
  using scenario_durations [of 1 "''A''" 2 "''B''"] unfolding scenario_rows_def by simp

text \<open>
  C2, at the input where the script departs from it: with the same two reservations and
  the start 10:00, the candidate of 840 minutes is accepted, although the interval from
  10:00 to 10:00 + 840 minutes overlaps the reservation from 12:00 to 13:00 under the
  overlap test. The end falls on midnight; the query is given its time of day, 00:00,
  which no start of a row is before.
\<close>

theorem accepted_duration_overlaps:
  "840 \<in> set (valid_durations scenario_rows ''VOXY'' scenario_date (time_hm 10 0)) \<and>
   strptime_HM (r_start_time (scenario_rows ! 1)) = Some (time_hm 12 0) \<and>
   strptime_HM (r_end_time (scenario_rows ! 1)) = Some (time_hm 13 0) \<and>
   \<not> (time_hm 10 0 + 840 \<le> time_hm 12 0 \<or> time_hm 13 0 \<le> time_hm 10 0)"
proof -
  have "840 \<in> set (valid_durations scenario_rows ''VOXY'' scenario_date (time_hm 10 0))"
    unfolding scenario_rows_def
    by (simp add: mem_valid_durations mem_durations overlap_empty_iff str_date_scenario
        end_times_scenario)
  moreover have "strptime_HM (r_start_time (scenario_rows ! 1)) = Some (time_hm 12 0)"
    "strptime_HM (r_end_time (scenario_rows ! 1)) = Some (time_hm 13 0)"
    unfolding scenario_rows_def
    by (simp_all add: strptime_scenario time_hm_def del: strptime_HM.simps)
  moreover have "\<not> (time_hm 10 0 + 840 \<le> time_hm 12 0 \<or> time_hm 13 0 \<le> time_hm 10 0)"
    by (simp add: time_hm_def)
  ultimately show ?thesis by simp
qed

subsection \<open>Submitting the form\<close>

lemma strip_blank: "strip ''  '' = []"
  by (simp add: strip_def is_space_def)

lemma reset_last_end_same:
  "last_end_date ss = Some d \<Longrightarrow> reset_last_end ss d = ss"
  by (simp add: reset_last_end_def)

lemma reset_last_end_other:
  "last_end_date ss \<noteq> Some d \<Longrightarrow>
     reset_last_end ss d = ss\<lparr>last_end_time := None, last_end_date := Some d\<rparr>"
  by (simp add: reset_last_end_def)

lemma last_end_date_reset: "last_end_date (reset_last_end ss d) = Some d"
  by (simp add: reset_last_end_def)

lemma evaluations_same:
  "last_end_date ss = Some d \<Longrightarrow> set ds \<subseteq> {d} \<Longrightarrow> evaluations ss ds = ss"
  by (induction ds) (simp_all add: reset_last_end_same)

lemma start_options_Inr:
  assumes "start_options rows ss d car = Inr (ss', starts)"
  shows "ss' = reset_last_end ss d \<and>
    (\<exists>blocked. unavailable_slots (df_existing rows (str_date d) car) = Inr blocked \<and>
       starts = available_start_slots (last_end_time ss') blocked)"
  using assms by (auto simp: start_options_def Let_def split: sum.splits if_splits)

lemma mem_available_start_slots:
  "t \<in> set (available_start_slots min_start blocked) \<longleftrightarrow>
     t \<in> set all_slots \<and> t \<notin> set blocked \<and> (case min_start of None \<Rightarrow> True | Some l \<Rightarrow> l \<le> t)"
  by (auto simp: available_start_slots_def)

lemma book_blank_name:
  assumes "strip name = []"
      and "book rows ss name d car start_time duration_minutes = Some (res, rows', ss')"
  shows "rows' = rows \<and> ss' = reset_last_end ss d \<and> (\<exists>err. res = Inl err)"
proof (cases "start_options rows ss d car")
  case (Inl err)
  with assms(2) show ?thesis by (auto simp: book_def)
next
  case (Inr p)
  obtain s1 starts where p: "p = (s1, starts)" by (cases p)
  with Inr have "s1 = reset_last_end ss d" using start_options_Inr by blast
  with assms Inr p show ?thesis
    by (auto simp: book_def submit_def split: if_splits)
qed

lemma start_options_offers:
  assumes "unavailable_slots (df_existing rows (str_date d) car) = Inr blocked"
      and "t \<in> set (available_start_slots (last_end_time (reset_last_end ss d)) blocked)"
  shows "start_options rows ss d car =
           Inr (reset_last_end ss d,
                available_start_slots (last_end_time (reset_last_end ss d)) blocked)"
proof -
  from assms(2) have "available_start_slots (last_end_time (reset_last_end ss d)) blocked \<noteq> []"
    by auto
  with assms(1) show ?thesis by (simp add: start_options_def Let_def)
qed

lemma submit_named:
  "strip name \<noteq> [] \<Longrightarrow>
   submit rows ss name d car start_time duration_minutes =
     (Inr (end_time_of start_time duration_minutes),
      insert_reservation rows name (str_date d) (strftime_HM start_time)
        (strftime_HM (end_time_of start_time duration_minutes)) car,
      ss\<lparr>last_end_time := Some (end_time_of start_time duration_minutes)\<rparr>)"
  by (simp add: submit_def)

text \<open>
  C9. When the name is empty after \<^verbatim>\<open>strip()\<close>, the \<^verbatim>\<open>if submitted:\<close> block reports the
  validation error and leaves the table and the session as they were: no row is
  inserted and the last end time is not touched.
\<close>

theorem blank_name_rejected:
  assumes "strip name = []"
  shows "submit rows ss name reserve_date car start_time duration_minutes =
           (Inl ValidationError, rows, ss)"
  using assms by (simp add: submit_def)

theorem blank_name_rejected_witness:
  "submit scenario_rows initial_session ''  '' scenario_date ''VOXY'' (time_hm 10 0) 30 =
     (Inl ValidationError, scenario_rows, initial_session)"
  using blank_name_rejected [OF strip_blank] .

text \<open>
  The carry-over of the last end time. After the form for date \<open>D\<close> was submitted with a
  name, the session holds the end's time of day \<open>T\<close> as last end time, for date \<open>D\<close>.
  Evaluations of the form for \<open>D\<close> that follow (any number of them, on whatever the table
  then holds, with no further booking in between) leave the session as it is and offer
  no start before \<open>T\<close>; an evaluation for another date clears the last end time and
  offers every slot that is not blocked.
\<close>

theorem carry_over:
  assumes "strip name \<noteq> []"
      and "submit rows (reset_last_end ss D) name D car start_time duration_minutes = (res, rows', ss')"
  shows "res = Inr (end_time_of start_time duration_minutes) \<and>
     last_end_time ss' = Some (end_time_of start_time duration_minutes) \<and>
     last_end_date ss' = Some D \<and>
     (\<forall>ds rows2 car2 ss2 starts.
        set ds \<subseteq> {D} \<and> start_options rows2 (evaluations ss' ds) D car2 = Inr (ss2, starts)
        \<longrightarrow> ss2 = ss' \<and> (\<forall>t\<in>set starts. end_time_of start_time duration_minutes \<le> t)) \<and>
     (\<forall>D' rows2 car2 ss2 starts blocked.
        D' \<noteq> D \<and> start_options rows2 ss' D' car2 = Inr (ss2, starts) \<and>
        unavailable_slots (df_existing rows2 (str_date D') car2) = Inr blocked
        \<longrightarrow> last_end_time ss2 = None \<and> starts = filter (\<lambda>t. t \<notin> set blocked) all_slots)"
proof -
  let ?T = "end_time_of start_time duration_minutes"
  from assms have r: "res = Inr ?T"
    and s: "ss' = (reset_last_end ss D)\<lparr>last_end_time := Some ?T\<rparr>"
    by (simp_all add: submit_def)
  have t: "last_end_time ss' = Some ?T" and d: "last_end_date ss' = Some D"
    using s by (simp_all add: last_end_date_reset)
  have same: "ss2 = ss' \<and> (\<forall>t\<in>set starts. ?T \<le> t)"
    if "set ds \<subseteq> {D}" "start_options rows2 (evaluations ss' ds) D car2 = Inr (ss2, starts)"
    for ds rows2 car2 ss2 starts
  proof -
    have e: "evaluations ss' ds = ss'" using d that(1) by (rule evaluations_same)
    from start_options_Inr [OF that(2) [unfolded e]] obtain blocked where
      "ss2 = reset_last_end ss' D" "starts = available_start_slots (last_end_time ss2) blocked"
      by blast
    then show ?thesis using t d by (simp add: reset_last_end_same mem_available_start_slots)
  qed
  have other: "last_end_time ss2 = None \<and> starts = filter (\<lambda>t. t \<notin> set blocked) all_slots"
    if "D' \<noteq> D" "start_options rows2 ss' D' car2 = Inr (ss2, starts)"
       "unavailable_slots (df_existing rows2 (str_date D') car2) = Inr blocked"
    for D' rows2 car2 ss2 starts blocked
  proof -
    from start_options_Inr [OF that(2)] that(3) have
      "ss2 = reset_last_end ss' D'" "starts = available_start_slots (last_end_time ss2) blocked"
      by auto
    then show ?thesis using d that(1) by (simp add: reset_last_end_other available_start_slots_def)
  qed
  from r t d same other show ?thesis by blast
qed

theorem carry_over_witness:
  "fst (submit [] (reset_last_end initial_session scenario_date) ''A'' scenario_date ''VOXY''
         (time_hm 12 0) 60) = Inr (time_hm 13 0) \<and>
   (\<exists>ss2 starts.
      start_options
        (fst (snd (submit [] (reset_last_end initial_session scenario_date) ''A'' scenario_date
           ''VOXY'' (time_hm 12 0) 60)))
        (evaluations
          (snd (snd (submit [] (reset_last_end initial_session scenario_date) ''A'' scenario_date
             ''VOXY'' (time_hm 12 0) 60))) [scenario_date])
        scenario_date ''VOXY'' = Inr (ss2, starts) \<and>
      last_end_time ss2 = Some (time_hm 13 0) \<and> time_hm 11 0 \<notin> set starts)"
proof -
  let ?s0 = "reset_last_end initial_session scenario_date"
  let ?r = "submit [] ?s0 ''A'' scenario_date ''VOXY'' (time_hm 12 0) 60"
  let ?rows1 = "fst (snd ?r)" and ?ss1 = "snd (snd ?r)"
  have n: "strip ''A'' \<noteq> []" by (simp add: strip_def is_space_def)
  have e: "end_time_of (time_hm 12 0) 60 = time_hm 13 0"
    by (simp add: end_time_of_def dt_time_def time_hm_def)
  have p: "?r = (fst ?r, ?rows1, ?ss1)" by simp
  note t = carry_over [OF n p, unfolded e]
  have ss1: "last_end_date ?ss1 = Some scenario_date" "last_end_time ?ss1 = Some (time_hm 13 0)"
    using t by simp_all
  have ev: "evaluations ?ss1 [scenario_date] = ?ss1"
    using ss1(1) by (simp add: reset_last_end_same)
  have rows1: "?rows1 = [\<lparr>r_id = 1, r_name = ''A'', r_date = str_date scenario_date,
       r_start_time = strftime_HM 720, r_end_time = strftime_HM 780, r_car = ''VOXY'',
       r_status = Reserved\<rparr>]"
    unfolding submit_named [OF n] e
    by (simp add: insert_reservation_def next_id_def time_hm_def)
  have b: "unavailable_slots (df_existing ?rows1 (str_date scenario_date) ''VOXY'') =
      Inr (slots_loop 720 780)"
    unfolding rows1 by (simp add: df_existing_def strptime_strftime del: strptime_HM.simps)
  have "time_hm 23 0 \<in> set (available_start_slots (last_end_time (reset_last_end ?ss1 scenario_date))
      (slots_loop 720 780))"
    using ss1 by (simp add: reset_last_end_same mem_available_start_slots mem_all_slots
        mem_slots_loop time_hm_def)
  from start_options_offers [OF b this] obtain ss2 starts where
    o: "start_options ?rows1 (evaluations ?ss1 [scenario_date]) scenario_date ''VOXY'' =
      Inr (ss2, starts)"
    unfolding ev by blast
  have d: "set [scenario_date] \<subseteq> {scenario_date}" by simp
  from t d o have "ss2 = ?ss1" "\<forall>t\<in>set starts. time_hm 13 0 \<le> t" by blast+
  moreover from this(2) have "time_hm 11 0 \<notin> set starts" by (auto simp: time_hm_def)
  ultimately show ?thesis using t o by auto
qed

subsection \<open>Two bookings of the same day\<close>

lemma book_accepts:
  assumes "start_options rows ss d car = Inr (ss1, starts)"
      and "start_time \<in> set starts"
      and "duration_minutes \<in> set (valid_durations rows car d start_time)"
  shows "book rows ss name d car start_time duration_minutes =
           Some (submit rows ss1 name d car start_time duration_minutes)"
proof -
  from assms(3) have "valid_durations rows car d start_time \<noteq> []" by auto
  with assms show ?thesis by (simp add: book_def)
qed

lemma strftime_examples:
  "strftime_HM (time_hm 12 0) = ''12:00''" "strftime_HM (time_hm 13 0) = ''13:00''"
  "strftime_HM (time_hm 0 0) = ''00:00''"
  by code_simp+

lemma end_time_examples:
  "end_time_of (time_hm 12 0) 60 = time_hm 13 0" "end_time_of (time_hm 10 0) 840 = time_hm 0 0"
  by (simp_all add: end_time_of_def dt_time_def time_hm_def)

lemma strip_examples: "strip ''A'' \<noteq> []" "strip ''B'' \<noteq> []"
  by (simp_all add: strip_def is_space_def)

text \<open>
  A booking adds one row, and in the text order of the query that row overlaps no
  reserved row of its car and date.
\<close>

lemma book_adds_row:
  assumes "book rows ss name d car start_time duration_minutes = Some (Inr t, rows', ss')"
  shows "\<exists>new. rows' = rows @ [new] \<and> r_status new = Reserved \<and> r_car new = car \<and>
           r_date new = str_date d \<and> r_start_time new = strftime_HM start_time \<and>
           r_end_time new = strftime_HM (end_time_of start_time duration_minutes) \<and>
           (\<forall>r\<in>set rows. r_car r = car \<and> r_date r = str_date d \<and> r_status r = Reserved \<longrightarrow>
              r_end_time r \<le> r_start_time new \<or> r_end_time new \<le> r_start_time r)"
proof (cases "start_options rows ss d car")
  case (Inl err)
  with assms show ?thesis by (simp add: book_def)
next
  case (Inr p)
  obtain s1 starts where p: "p = (s1, starts)" by (cases p)
  from assms Inr p have v: "duration_minutes \<in> set (valid_durations rows car d start_time)"
    and s: "submit rows s1 name d car start_time duration_minutes = (Inr t, rows', ss')"
    by (auto simp: book_def split: if_splits)
  from s have "rows' = insert_reservation rows name (str_date d) (strftime_HM start_time)
       (strftime_HM (end_time_of start_time duration_minutes)) car"
    by (auto simp: submit_def split: if_splits)
  with v show ?thesis
    unfolding mem_valid_durations overlap_empty_iff by (simp add: insert_reservation_def)
qed

text \<open>
  On a table written by the form, a booking that ends before midnight starts, for every
  reserved row of its car and date, at or after the row's stored end or ends by the
  row's stored start.
\<close>

lemma book_same_day_no_overlap:
  assumes "book rows ss name d car start_time duration_minutes = Some (Inr t, rows', ss')"
      and "start_time + duration_minutes < 1440"
      and "\<forall>r\<in>set rows. \<exists>s e. s < 1440 \<and> e < 1440 \<and>
             r_start_time r = strftime_HM s \<and> r_end_time r = strftime_HM e"
  shows "\<forall>r\<in>set rows. r_car r = car \<and> r_date r = str_date d \<and> r_status r = Reserved \<longrightarrow>
           (\<forall>s e. strptime_HM (r_start_time r) = Some s \<and> strptime_HM (r_end_time r) = Some e \<longrightarrow>
              e \<le> start_time \<or> start_time + duration_minutes \<le> s)"
proof (cases "start_options rows ss d car")
  case (Inl err)
  with assms(1) show ?thesis by (simp add: book_def)
next
  case (Inr p)
  obtain s1 starts where p: "p = (s1, starts)" by (cases p)
  from assms(1) Inr p have "duration_minutes \<in> set (valid_durations rows car d start_time)"
    by (auto simp: book_def split: if_splits)
  then show ?thesis unfolding valid_durations_same_day [OF assms(2,3)] by (rule conjunct2)
qed

text \<open>
  C1, at the input where the script departs from it. On an empty table a first user
  books VOXY on 2024-06-01 from 12:00 for 60 minutes; a second user, in a fresh session,
  is then offered the start 10:00 and, for it, the duration of 840 minutes, and books
  them. Both rows are \<open>Reserved\<close> for the same car and date, and the intervals from
  10:00 to 10:00 + 840 minutes and from 12:00 to 12:00 + 60 minutes overlap under the
  overlap test. The second booking ends on midnight and is stored with the end 00:00.
\<close>

theorem double_booking:
  "book [] initial_session ''A'' scenario_date ''VOXY'' (time_hm 12 0) 60 =
     Some (Inr (time_hm 13 0),
       [\<lparr>r_id = 1, r_name = ''A'', r_date = ''2024-06-01'', r_start_time = ''12:00'',
         r_end_time = ''13:00'', r_car = ''VOXY'', r_status = Reserved\<rparr>],
       \<lparr>last_end_time = Some (time_hm 13 0), last_end_date = Some scenario_date,
         cancel_id = None\<rparr>) \<and>
   book [\<lparr>r_id = 1, r_name = ''A'', r_date = ''2024-06-01'', r_start_time = ''12:00'',
           r_end_time = ''13:00'', r_car = ''VOXY'', r_status = Reserved\<rparr>]
        initial_session ''B'' scenario_date ''VOXY'' (time_hm 10 0) 840 =
     Some (Inr (time_hm 0 0),
       [\<lparr>r_id = 1, r_name = ''A'', r_date = ''2024-06-01'', r_start_time = ''12:00'',
         r_end_time = ''13:00'', r_car = ''VOXY'', r_status = Reserved\<rparr>,
        \<lparr>r_id = 2, r_name = ''B'', r_date = ''2024-06-01'', r_start_time = ''10:00'',
         r_end_time = ''00:00'', r_car = ''VOXY'', r_status = Reserved\<rparr>],
       \<lparr>last_end_time = Some (time_hm 0 0), last_end_date = Some scenario_date,
         cancel_id = None\<rparr>) \<and>
   \<not> (time_hm 10 0 + 840 \<le> time_hm 12 0 \<or> time_hm 12 0 + 60 \<le> time_hm 10 0)"
proof -
  let ?row1 = "\<lparr>r_id = 1, r_name = ''A'', r_date = ''2024-06-01'', r_start_time = ''12:00'',
         r_end_time = ''13:00'', r_car = ''VOXY'', r_status = Reserved\<rparr>"
  let ?s0 = "reset_last_end initial_session scenario_date"
  have s0: "?s0 = \<lparr>last_end_time = None, last_end_date = Some scenario_date, cancel_id = None\<rparr>"
    by (simp add: reset_last_end_def initial_session_def)
  \<comment> \<open>the first booking, on the empty table\<close>
  have u1: "unavailable_slots (df_existing [] (str_date scenario_date) ''VOXY'') = Inr []"
    by (simp add: df_existing_def)
  have a1: "time_hm 12 0 \<in> set (available_start_slots (last_end_time ?s0) [])"
    by (simp add: s0 mem_available_start_slots mem_all_slots time_hm_def)
  have v1: "60 \<in> set (valid_durations [] ''VOXY'' scenario_date (time_hm 12 0))"
    by (simp add: mem_valid_durations mem_durations overlap_def)
  have b1: "book [] initial_session ''A'' scenario_date ''VOXY'' (time_hm 12 0) 60 =
      Some (submit [] ?s0 ''A'' scenario_date ''VOXY'' (time_hm 12 0) 60)"
    using start_options_offers [OF u1 a1] a1 v1 by (rule book_accepts)
  have r1: "submit [] ?s0 ''A'' scenario_date ''VOXY'' (time_hm 12 0) 60 =
      (Inr (time_hm 13 0), [?row1],
       \<lparr>last_end_time = Some (time_hm 13 0), last_end_date = Some scenario_date,
         cancel_id = None\<rparr>)"
    unfolding submit_named [OF strip_examples(1)] end_time_examples strftime_examples
      str_date_scenario s0
    by (simp add: insert_reservation_def next_id_def)
  \<comment> \<open>the second booking, from a fresh session\<close>
  have u2: "unavailable_slots (df_existing [?row1] (str_date scenario_date) ''VOXY'') =
      Inr (slots_loop 720 780)"
    by (simp add: df_existing_def str_date_scenario strptime_scenario del: strptime_HM.simps)
  have a2: "time_hm 10 0 \<in> set (available_start_slots (last_end_time ?s0) (slots_loop 720 780))"
    by (simp add: s0 mem_available_start_slots mem_all_slots mem_slots_loop time_hm_def)
  have v2: "840 \<in> set (valid_durations [?row1] ''VOXY'' scenario_date (time_hm 10 0))"
    by (simp add: mem_valid_durations mem_durations overlap_empty_iff str_date_scenario
        end_times_scenario)
  have b2: "book [?row1] initial_session ''B'' scenario_date ''VOXY'' (time_hm 10 0) 840 =
      Some (submit [?row1] ?s0 ''B'' scenario_date ''VOXY'' (time_hm 10 0) 840)"
    using start_options_offers [OF u2 a2] a2 v2 by (rule book_accepts)
  have r2: "submit [?row1] ?s0 ''B'' scenario_date ''VOXY'' (time_hm 10 0) 840 =
      (Inr (time_hm 0 0),
       [?row1, \<lparr>r_id = 2, r_name = ''B'', r_date = ''2024-06-01'', r_start_time = ''10:00'',
         r_end_time = ''00:00'', r_car = ''VOXY'', r_status = Reserved\<rparr>],
       \<lparr>last_end_time = Some (time_hm 0 0), last_end_date = Some scenario_date,
         cancel_id = None\<rparr>)"
    unfolding submit_named [OF strip_examples(2)] end_time_examples strftime_examples
      end_times_scenario str_date_scenario s0
    by (simp add: insert_reservation_def next_id_def)
  have o: "\<not> (time_hm 10 0 + 840 \<le> time_hm 12 0 \<or> time_hm 12 0 + 60 \<le> time_hm 10 0)"
    by (simp add: time_hm_def)
  show ?thesis unfolding b1 r1 b2 r2 using o by simp
qed

subsection \<open>Two bookings of one session\<close>

lemma strftime_late: "strftime_HM (time_hm 23 0) = ''23:00''" "strftime_HM (time_hm 1 0) = ''01:00''"
  by code_simp+

lemma end_time_late: "end_time_of (time_hm 23 0) 120 = time_hm 1 0"
  by (simp add: end_time_of_def dt_time_def time_hm_def)

text \<open>
  Within a session and a date, a booking that ends before midnight never lowers the last
  end time.
\<close>

lemma book_same_day_raises_last_end:
  assumes "book rows ss name d car start_time duration_minutes = Some (Inr t, rows', ss')"
      and "last_end_date ss = Some d" "last_end_time ss = Some l"
      and "start_time + duration_minutes < 1440"
  shows "last_end_date ss' = Some d \<and> last_end_time ss' = Some (start_time + duration_minutes) \<and>
         l \<le> start_time + duration_minutes"
proof (cases "start_options rows ss d car")
  case (Inl err)
  with assms(1) show ?thesis by (simp add: book_def)
next
  case (Inr p)
  obtain s1 starts where p: "p = (s1, starts)" by (cases p)
  from start_options_Inr [OF Inr [unfolded p]] assms(2) obtain blocked where
    s1: "s1 = ss" and st: "starts = available_start_slots (last_end_time s1) blocked"
    by (auto simp: reset_last_end_same)
  from assms(1) Inr p have m: "start_time \<in> set starts"
    and s: "submit rows s1 name d car start_time duration_minutes = (Inr t, rows', ss')"
    by (auto simp: book_def split: if_splits)
  from m st s1 assms(3) have "l \<le> start_time" by (simp add: mem_available_start_slots)
  moreover from s s1 have "ss' = ss\<lparr>last_end_time := Some (end_time_of start_time duration_minutes)\<rparr>"
    by (auto simp: submit_def split: if_splits)
  ultimately show ?thesis using assms(2) end_time_of_same_day [OF assms(4)] by simp
qed

text \<open>
  C7, at the input where the script departs from it. A session books VOXY on 2024-06-01
  from 12:00 for 60 minutes, so the reservation ends at 13:00 and the session's last end
  time is 13:00; the same session then books 23:00 for 120 minutes, which the form
  offers. The last end time becomes 01:00, the time of day of an end that lies on the
  next day, and the next evaluation of the form for the same date offers the start
  02:00, which is before 13:00.
\<close>

theorem carry_over_lowered:
  "book [] initial_session ''A'' scenario_date ''VOXY'' (time_hm 12 0) 60 =
     Some (Inr (time_hm 13 0),
       [\<lparr>r_id = 1, r_name = ''A'', r_date = ''2024-06-01'', r_start_time = ''12:00'',
         r_end_time = ''13:00'', r_car = ''VOXY'', r_status = Reserved\<rparr>],
       \<lparr>last_end_time = Some (time_hm 13 0), last_end_date = Some scenario_date,
         cancel_id = None\<rparr>) \<and>
   book [\<lparr>r_id = 1, r_name = ''A'', r_date = ''2024-06-01'', r_start_time = ''12:00'',
           r_end_time = ''13:00'', r_car = ''VOXY'', r_status = Reserved\<rparr>]
        \<lparr>last_end_time = Some (time_hm 13 0), last_end_date = Some scenario_date,
          cancel_id = None\<rparr>
        ''A'' scenario_date ''VOXY'' (time_hm 23 0) 120 =
     Some (Inr (time_hm 1 0),
       [\<lparr>r_id = 1, r_name = ''A'', r_date = ''2024-06-01'', r_start_time = ''12:00'',
         r_end_time = ''13:00'', r_car = ''VOXY'', r_status = Reserved\<rparr>,
        \<lparr>r_id = 2, r_name = ''A'', r_date = ''2024-06-01'', r_start_time = ''23:00'',
         r_end_time = ''01:00'', r_car = ''VOXY'', r_status = Reserved\<rparr>],
       \<lparr>last_end_time = Some (time_hm 1 0), last_end_date = Some scenario_date,
         cancel_id = None\<rparr>) \<and>
   (\<exists>starts.
      start_options
        [\<lparr>r_id = 1, r_name = ''A'', r_date = ''2024-06-01'', r_start_time = ''12:00'',
          r_end_time = ''13:00'', r_car = ''VOXY'', r_status = Reserved\<rparr>,
         \<lparr>r_id = 2, r_name = ''A'', r_date = ''2024-06-01'', r_start_time = ''23:00'',
          r_end_time = ''01:00'', r_car = ''VOXY'', r_status = Reserved\<rparr>]
        \<lparr>last_end_time = Some (time_hm 1 0), last_end_date = Some scenario_date,
          cancel_id = None\<rparr>
        scenario_date ''VOXY'' =
      Inr (\<lparr>last_end_time = Some (time_hm 1 0), last_end_date = Some scenario_date,
             cancel_id = None\<rparr>, starts) \<and>
      time_hm 2 0 \<in> set starts) \<and>
   time_hm 2 0 < time_hm 13 0"
proof -
  let ?row1 = "\<lparr>r_id = 1, r_name = ''A'', r_date = ''2024-06-01'', r_start_time = ''12:00'',
         r_end_time = ''13:00'', r_car = ''VOXY'', r_status = Reserved\<rparr>"
  let ?row2 = "\<lparr>r_id = 2, r_name = ''A'', r_date = ''2024-06-01'', r_start_time = ''23:00'',
         r_end_time = ''01:00'', r_car = ''VOXY'', r_status = Reserved\<rparr>"
  let ?s0 = "reset_last_end initial_session scenario_date"
  let ?ss1 = "\<lparr>last_end_time = Some (time_hm 13 0), last_end_date = Some scenario_date,
         cancel_id = None\<rparr>"
  let ?ss2 = "\<lparr>last_end_time = Some (time_hm 1 0), last_end_date = Some scenario_date,
         cancel_id = None\<rparr>"
  have s0: "?s0 = \<lparr>last_end_time = None, last_end_date = Some scenario_date, cancel_id = None\<rparr>"
    by (simp add: reset_last_end_def initial_session_def)
  have k1: "reset_last_end ?ss1 scenario_date = ?ss1" by (simp add: reset_last_end_def)
  have k2: "reset_last_end ?ss2 scenario_date = ?ss2" by (simp add: reset_last_end_def)
  \<comment> \<open>the first booking of the session\<close>
  have u1: "unavailable_slots (df_existing [] (str_date scenario_date) ''VOXY'') = Inr []"
    by (simp add: df_existing_def)
  have a1: "time_hm 12 0 \<in> set (available_start_slots (last_end_time ?s0) [])"
    by (simp add: s0 mem_available_start_slots mem_all_slots time_hm_def)
  have v1: "60 \<in> set (valid_durations [] ''VOXY'' scenario_date (time_hm 12 0))"
    by (simp add: mem_valid_durations mem_durations overlap_def)
  have b1: "book [] initial_session ''A'' scenario_date ''VOXY'' (time_hm 12 0) 60 =
      Some (submit [] ?s0 ''A'' scenario_date ''VOXY'' (time_hm 12 0) 60)"
    using start_options_offers [OF u1 a1] a1 v1 by (rule book_accepts)
  have r1: "submit [] ?s0 ''A'' scenario_date ''VOXY'' (time_hm 12 0) 60 =
      (Inr (time_hm 13 0), [?row1], ?ss1)"
    unfolding submit_named [OF strip_examples(1)] end_time_examples strftime_examples
      str_date_scenario s0
    by (simp add: insert_reservation_def next_id_def)
  \<comment> \<open>the second booking of the same session, into the next day\<close>
  have u2: "unavailable_slots (df_existing [?row1] (str_date scenario_date) ''VOXY'') =
      Inr (slots_loop 720 780)"
    by (simp add: df_existing_def str_date_scenario strptime_scenario del: strptime_HM.simps)
  have a2: "time_hm 23 0 \<in> set (available_start_slots (last_end_time (reset_last_end ?ss1 scenario_date))
      (slots_loop 720 780))"
    unfolding k1
    by (simp add: mem_available_start_slots mem_all_slots mem_slots_loop time_hm_def)
  have v2: "120 \<in> set (valid_durations [?row1] ''VOXY'' scenario_date (time_hm 23 0))"
    by (simp add: mem_valid_durations mem_durations overlap_empty_iff str_date_scenario
        strftime_late end_time_late)
  have b2: "book [?row1] ?ss1 ''A'' scenario_date ''VOXY'' (time_hm 23 0) 120 =
      Some (submit [?row1] (reset_last_end ?ss1 scenario_date) ''A'' scenario_date ''VOXY''
        (time_hm 23 0) 120)"
    using start_options_offers [OF u2 a2] a2 v2 by (rule book_accepts)
  have r2: "submit [?row1] (reset_last_end ?ss1 scenario_date) ''A'' scenario_date ''VOXY''
        (time_hm 23 0) 120 = (Inr (time_hm 1 0), [?row1, ?row2], ?ss2)"
    unfolding submit_named [OF strip_examples(1)] end_time_late strftime_late
      str_date_scenario k1
    by (simp add: insert_reservation_def next_id_def)
  \<comment> \<open>the next evaluation of the form for the same date\<close>
  have u3: "unavailable_slots (df_existing [?row1, ?row2] (str_date scenario_date) ''VOXY'') =
      Inr (slots_loop 720 780 @ slots_loop 1380 60)"
    by (simp add: df_existing_def str_date_scenario strptime_scenario del: strptime_HM.simps)
  have a3: "time_hm 2 0 \<in> set (available_start_slots (last_end_time (reset_last_end ?ss2 scenario_date))
      (slots_loop 720 780 @ slots_loop 1380 60))"
    unfolding k2
    by (simp add: mem_available_start_slots mem_all_slots mem_slots_loop time_hm_def)
  have o3: "\<exists>starts. start_options [?row1, ?row2] ?ss2 scenario_date ''VOXY'' = Inr (?ss2, starts) \<and>
      time_hm 2 0 \<in> set starts"
    using start_options_offers [OF u3 a3] a3 unfolding k2 by blast
  have l: "time_hm 2 0 < time_hm 13 0" by (simp add: time_hm_def)
  show ?thesis unfolding b1 r1 b2 r2 using o3 l by simp
qed

subsection \<open>The sweep of past days\<close>

lemma dash_less_iff: "CHR ''-'' # xs < CHR ''-'' # ys \<longleftrightarrow> xs < ys"
  by simp

lemma four_digits_less_iff:
  assumes "a < 10000" "b < 10000"
  shows "four_digits a @ xs < four_digits b @ ys \<longleftrightarrow> a < b \<or> a = b \<and> xs < ys"
proof -
  have h: "a div 100 < 100" "b div 100 < 100" and l: "a mod 100 < 100" "b mod 100 < 100"
    using assms by simp_all
  have "four_digits a @ xs < four_digits b @ ys \<longleftrightarrow>
        a div 100 < b div 100 \<or> a div 100 = b div 100 \<and>
          two_digits (a mod 100) @ xs < two_digits (b mod 100) @ ys"
    unfolding four_digits_def append_assoc by (rule two_digits_less_iff [OF h])
  also have "\<dots> \<longleftrightarrow> a div 100 < b div 100 \<or> a div 100 = b div 100 \<and>
       (a mod 100 < b mod 100 \<or> a mod 100 = b mod 100 \<and> xs < ys)"
    unfolding two_digits_less_iff [OF l] by (rule refl)
  finally show ?thesis using less_div_mod100 [of a b] eq_div_mod100 [of a b] by blast
qed

lemma str_date_less_iff:
  assumes "date_ok a" "date_ok b"
  shows "str_date a < str_date b \<longleftrightarrow> date_less a b"
proof -
  have y: "year a < 10000" "year b < 10000" and m: "month a < 100" "month b < 100"
    and d: "day a < 100" "day b < 100"
    using assms by (simp_all add: date_ok_def)
  have "str_date a < str_date b \<longleftrightarrow>
      year a < year b \<or> year a = year b \<and>
        CHR ''-'' # (two_digits (month a) @ CHR ''-'' # (two_digits (day a) @ []))
          < CHR ''-'' # (two_digits (month b) @ CHR ''-'' # (two_digits (day b) @ []))"
    unfolding str_date_def using four_digits_less_iff [OF y] by simp
  also have "\<dots> \<longleftrightarrow> year a < year b \<or> year a = year b \<and>
       (month a < month b \<or> month a = month b \<and> day a < day b)"
    unfolding dash_less_iff two_digits_less_iff [OF m] two_digits_less_iff [OF d] by simp
  finally show ?thesis unfolding date_less_def .
qed

lemma expiry_sweep_length: "length (expiry_sweep today rows) = length rows"
  by (simp add: expiry_sweep_def)

lemma expiry_sweep_nth:
  "i < length rows \<Longrightarrow> expiry_sweep today rows ! i =
     (if r_status (rows ! i) = Reserved \<and> r_date (rows ! i) < str_date today
      then (rows ! i)\<lparr>r_status := Cancelled\<rparr> else rows ! i)"
  by (simp add: expiry_sweep_def)

lemma expiry_sweep_idem: "expiry_sweep today (expiry_sweep today rows) = expiry_sweep today rows"
  by (simp add: expiry_sweep_def)

text \<open>
  C10. One run of the sweep keeps the rows in place and sets the status \<open>Cancelled\<close> on
  exactly the rows that are \<open>Reserved\<close> and whose date is before today (the query
  compares the stored text with \<^verbatim>\<open>str(date.today())\<close>; for a stored ISO date that is
  the order of the dates), leaving every other row as it is; a second run with the same
  today changes nothing more.
\<close>

theorem expiry_sweep_exact:
  "length (expiry_sweep today rows) = length rows \<and>
   (\<forall>i<length rows. expiry_sweep today rows ! i =
      (if r_status (rows ! i) = Reserved \<and> r_date (rows ! i) < str_date today
       then (rows ! i)\<lparr>r_status := Cancelled\<rparr> else rows ! i)) \<and>
   (\<forall>i<length rows. \<forall>d. date_ok d \<and> date_ok today \<and> r_date (rows ! i) = str_date d \<longrightarrow>
      (r_status (expiry_sweep today rows ! i) = Cancelled \<longleftrightarrow>
         r_status (rows ! i) = Cancelled \<or> date_less d today)) \<and>
   expiry_sweep today (expiry_sweep today rows) = expiry_sweep today rows"
proof -
  have "r_status (expiry_sweep today rows ! i) = Cancelled \<longleftrightarrow>
         r_status (rows ! i) = Cancelled \<or> date_less d today"
    if "i < length rows" "date_ok d" "date_ok today" "r_date (rows ! i) = str_date d" for i d
    using that str_date_less_iff [of d today]
    by (cases "r_status (rows ! i)") (simp_all add: expiry_sweep_nth)
  then show ?thesis
    using expiry_sweep_length expiry_sweep_nth expiry_sweep_idem by blast
qed

theorem expiry_sweep_exact_witness:
  "r_status (expiry_sweep scenario_date (yesterday_row # scenario_rows) ! 0) = Cancelled \<and>
   r_status (expiry_sweep scenario_date (yesterday_row # scenario_rows) ! 1) = Reserved \<and>
   expiry_sweep scenario_date (expiry_sweep scenario_date (yesterday_row # scenario_rows)) =
     expiry_sweep scenario_date (yesterday_row # scenario_rows)"
proof -
  let ?rows = "yesterday_row # scenario_rows"
  let ?y = "\<lparr>year = 2024, month = 5, day = 31\<rparr>"
  have ok: "date_ok ?y" "date_ok scenario_date" by (simp_all add: date_ok_def scenario_date_def)
  have d0: "r_date (?rows ! 0) = str_date ?y" unfolding yesterday_row_def by code_simp
  have d1: "r_date (?rows ! 1) = str_date scenario_date"
    by (simp add: str_date_scenario scenario_rows_def)
  have l: "0 < length ?rows" "1 < length ?rows" by (simp_all add: scenario_rows_def)
  have s: "r_status (?rows ! 0) = Reserved" "r_status (?rows ! 1) = Reserved"
    by (simp_all add: yesterday_row_def scenario_rows_def)
  have c: "date_less ?y scenario_date" "\<not> date_less scenario_date scenario_date"
    by (simp_all add: date_less_def scenario_date_def)
  note t = expiry_sweep_exact [of scenario_date ?rows]
  from t l(1) ok d0 have "r_status (expiry_sweep scenario_date ?rows ! 0) = Cancelled \<longleftrightarrow>
      r_status (?rows ! 0) = Cancelled \<or> date_less ?y scenario_date" by blast
  moreover from t l(2) ok d1 have "r_status (expiry_sweep scenario_date ?rows ! 1) = Cancelled \<longleftrightarrow>
      r_status (?rows ! 1) = Cancelled \<or> date_less scenario_date scenario_date" by blast
  moreover have "r_status (expiry_sweep scenario_date ?rows ! 1) \<noteq> Cancelled \<Longrightarrow>
      r_status (expiry_sweep scenario_date ?rows ! 1) = Reserved"
    by (cases "r_status (expiry_sweep scenario_date ?rows ! 1)") simp_all
  ultimately show ?thesis using t s c by simp
qed

end
